theory Spec2Isabelle
  imports Main "HOL-Library.Sublist" "HOL-Library.Char_ord" "HOL-Library.List_Lexorder"
begin

section \<open>Error handling utilities (src/utils/errorHandling.ts)\<close>

text \<open>
  JavaScript numbers that the program handles are coin amounts, millisecond delays and
  attempt counters; the database columns behind them are \<open>integer\<close>. They are modelled
  as unbounded \<open>int\<close> (no NaN, no fractions, no rounding above 2^53).
\<close>

subsection \<open>withRetry\<close>

text \<open>
  \<^verbatim>\<open>export interface RetryOptions { maxRetries?: number; delay?: number; backoff?: boolean; }\<close>
  An optional field that is absent is \<open>None\<close>.
\<close>

record RetryOptions =
  maxRetries :: "int option"
  delay :: "int option"
  backoff :: "bool option"

definition defaultRetryOptions :: RetryOptions where
  "defaultRetryOptions = \<lparr>maxRetries = Some 3, delay = Some 1000, backoff = Some True\<rparr>"

text \<open>
  An operation \<open>() => Promise<T>\<close> is a state transformer on the world it acts on: it
  either throws (\<open>Inl e\<close>) or returns (\<open>Inr v\<close>), and leaves a new world.

  The loop of \<open>withRetry\<close>:
  \<^verbatim>\<open>
  for (let attempt = 0; attempt <= maxRetries; attempt++) {
    try { return await operation(); }
    catch (error) {
      lastError = error as Error;
      if (attempt === maxRetries) { break; }
      const currentDelay = backoff ? delay * Math.pow(2, attempt) : delay;
      await new Promise(resolve => setTimeout(resolve, currentDelay));
    }
  }
  throw lastError!;
  \<close>
  \<open>lastError\<close> is declared without a value, so it is \<open>None\<close> (JavaScript's undefined)
  until the first catch. The result carries the list of delays that were waited, in order.
\<close>

function retry_loop ::
  "('s \<Rightarrow> ('e + 'a) \<times> 's) \<Rightarrow> int \<Rightarrow> int \<Rightarrow> bool \<Rightarrow> int \<Rightarrow> 'e option \<Rightarrow> int list \<Rightarrow> 's
     \<Rightarrow> ('e option + 'a) \<times> int list \<times> 's"
where
  "retry_loop operation maxR dl bk attempt lastError waited s =
     (if attempt \<le> maxR then
        (case operation s of
           (Inr v, s') \<Rightarrow> (Inr v, waited, s')
         | (Inl e, s') \<Rightarrow>
             if attempt = maxR then (Inl (Some e), waited, s')
             else retry_loop operation maxR dl bk (attempt + 1) (Some e)
                    (waited @ [if bk then dl * 2 ^ nat attempt else dl]) s')
      else (Inl lastError, waited, s))"
  by pat_completeness auto
termination
  by (relation "measure (\<lambda>(operation, maxR, dl, bk, attempt, lastError, waited, s).
        nat (maxR + 1 - attempt))") auto

declare retry_loop.simps [simp del]

text \<open>
  \<^verbatim>\<open>const { maxRetries = 3, delay = 1000, backoff = true } = options;\<close>
\<close>

definition resolve_options :: "RetryOptions \<Rightarrow> int \<times> int \<times> bool" where
  "resolve_options options =
     ((case maxRetries options of None \<Rightarrow> 3 | Some m \<Rightarrow> m),
      (case delay options of None \<Rightarrow> 1000 | Some d \<Rightarrow> d),
      (case backoff options of None \<Rightarrow> True | Some b \<Rightarrow> b))"

definition withRetry ::
  "('s \<Rightarrow> ('e + 'a) \<times> 's) \<Rightarrow> RetryOptions \<Rightarrow> 's \<Rightarrow> ('e option + 'a) \<times> int list \<times> 's"
where
  "withRetry operation options s =
     (case resolve_options options of
        (maxR, dl, bk) \<Rightarrow> retry_loop operation maxR dl bk 0 None [] s)"

text \<open>
  Vocabulary for statements about operations: \<open>fails_then operation n s\<close> is
  \<open>Some (es, s')\<close> when the first \<open>n\<close> invocations of \<open>operation\<close> from world \<open>s\<close> all
  throw, with \<open>es\<close> the errors thrown in order and \<open>s'\<close> the world they leave; it is
  \<open>None\<close> when one of them returns.
\<close>

fun fails_then :: "('s \<Rightarrow> ('e + 'a) \<times> 's) \<Rightarrow> nat \<Rightarrow> 's \<Rightarrow> ('e list \<times> 's) option" where
  "fails_then operation 0 s = Some ([], s)"
| "fails_then operation (Suc n) s =
     (case operation s of
        (Inr v, s') \<Rightarrow> None
      | (Inl e, s') \<Rightarrow>
          (case fails_then operation n s' of
             None \<Rightarrow> None
           | Some (es, s'') \<Rightarrow> Some (e # es, s'')))"


subsection \<open>getErrorMessage\<close>

text \<open>
  The argument has type \<open>unknown\<close>. The values modelled are the data values of
  JavaScript: undefined, null, booleans, integer-valued numbers below 10^21 in magnitude
  (which print in decimal), strings, instances of \<open>Error\<close> (name and message, both
  strings), and ordinary objects given by their data properties. Objects with accessors,
  proxies and objects without a prototype are outside this model.
\<close>

datatype js_value =
    JUndefined
  | JNull
  | JBoolean bool
  | JNumber int
  | JString string
  | JError string string
  | JObject "(string \<times> js_value) list"

fun digit_char :: "nat \<Rightarrow> char" where
  "digit_char n = char_of (48 + n)"

fun show_nat :: "nat \<Rightarrow> string" where
  "show_nat n = (if n < 10 then [digit_char n] else show_nat (n div 10) @ [digit_char (n mod 10)])"

declare show_nat.simps [simp del]

definition show_int :: "int \<Rightarrow> string" where
  "show_int i = (if i < 0 then CHR ''-'' # show_nat (nat (- i)) else show_nat (nat i))"

text \<open>
  \<open>String(v)\<close>. For an Error, \<open>Error.prototype.toString\<close>: the name when the message is
  empty, the message when the name is empty, otherwise \<open>name: message\<close>.
\<close>

fun js_String :: "js_value \<Rightarrow> string" where
  "js_String JUndefined = ''undefined''"
| "js_String JNull = ''null''"
| "js_String (JBoolean b) = (if b then ''true'' else ''false'')"
| "js_String (JNumber n) = show_int n"
| "js_String (JString s) = s"
| "js_String (JError name msg) =
     (if msg = [] then name else if name = [] then msg else name @ '': '' @ msg)"
| "js_String (JObject props) = ''[object Object]''"

text \<open>
  \<^verbatim>\<open>
  if (error instanceof Error) { return error.message; }
  if (typeof error === 'string') { return error; }
  if (error && typeof error === 'object' && 'message' in error) {
    return String((error as any).message);
  }
  return 'An unexpected error occurred';
  \<close>
  \<open>typeof null\<close> is \<open>'object'\<close>, but null is falsy, so null reaches the last line.
\<close>

fun getErrorMessage :: "js_value \<Rightarrow> string" where
  "getErrorMessage (JError name msg) = msg"
| "getErrorMessage (JString s) = s"
| "getErrorMessage (JObject props) =
     (case map_of props ''message'' of
        Some m \<Rightarrow> js_String m
      | None \<Rightarrow> ''An unexpected error occurred'')"
| "getErrorMessage v = ''An unexpected error occurred''"


subsection \<open>createErrorMessage\<close>

text \<open>\<^verbatim>\<open>type: 'error' | 'warning' | 'info' | 'success'\<close>\<close>

datatype msg_type = error | warning | info | success

text \<open>
  \<open>Omit<ErrorMessage, 'id'>\<close> and \<open>ErrorMessage\<close>. A retry callback \<open>() => void\<close> is
  kept as a value of the type parameter \<open>'r\<close> that names the call it would make. The
  field \<open>id\<close> is \<open>msg_id\<close> here (\<open>id\<close> is the identity function of HOL).
\<close>

record 'r ErrorMessageInput =
  message :: string
  type :: msg_type
  duration :: "int option"
  retryAction :: "'r option"
  retryLabel :: "string option"

record 'r ErrorMessage = "'r ErrorMessageInput" +
  msg_id :: string

text \<open>
  \<^verbatim>\<open>
  ({ message, type, retryAction, retryLabel, duration: type === 'success' ? 3000 : 5000 })
  \<close>
  The default of the \<open>type\<close> parameter is \<open>'error'\<close>.
\<close>

definition createErrorMessage ::
  "string \<Rightarrow> msg_type option \<Rightarrow> 'r option \<Rightarrow> string option \<Rightarrow> 'r ErrorMessageInput"
where
  "createErrorMessage msg ty ra rl =
     (let t = (case ty of None \<Rightarrow> error | Some t \<Rightarrow> t)
      in \<lparr>message = msg, type = t, duration = Some (if t = success then 3000 else 5000),
          retryAction = ra, retryLabel = rl\<rparr>)"

section \<open>The hosted database (supabase/migrations)\<close>

text \<open>
  The tables the hooks below read and write, with the columns and constraints of the
  migrations. Timestamps are ISO strings. The random surrogate key of
  \<open>user_episode_unlocks\<close> and the table \<open>auth.users\<close> are left out; row-level security
  restricts each statement to the rows of the signed-in user, which is the filter
  \<open>.eq('user_id', userId)\<close> that every statement here carries already.
\<close>

record UserBalance =
  user_id :: string
  coins :: int
  bonus_coins :: int
  created_at :: string
  updated_at :: string

record UserEpisodeUnlock =
  ul_user_id :: string
  ul_movie_id :: int
  ul_unlocked_at :: string
  ul_created_at :: string

record UserWatchlistCategory =
  cat_id :: string
  cat_user_id :: string
  cat_name :: string
  cat_color :: string
  cat_created_at :: string
  cat_updated_at :: string

record WatchlistRow =
  wl_id :: string
  wl_user_id :: string
  wl_movie_id :: int
  wl_category_id :: "string option"
  wl_created_at :: string

text \<open>The columns of \<open>movies\<close> that the watchlist query selects.\<close>

record Movie =
  movie_id :: int
  title :: string
  genre :: string
  view_count :: string
  poster_url :: string
  landscape_poster_url :: string
  badge :: "string option"
  episodes :: "int option"
  duration_seconds :: "int option"
  movie_created_at :: string
  series_id :: "string option"
  episode_number :: "int option"

text \<open>A PostgREST error object \<open>{ message, code, ... }\<close>.\<close>

datatype db_error = DbError (err_code: string) (err_message: string)

record database =
  user_balances :: "UserBalance list"
  user_episode_unlocks :: "UserEpisodeUnlock list"
  user_watchlist_categories :: "UserWatchlistCategory list"
  user_watchlist :: "WatchlistRow list"
  movies :: "Movie list"
  now :: string

text \<open>
  \<^verbatim>\<open>.from('user_balances').update({ coins, bonus_coins }).eq('user_id', userId)\<close>
  The trigger \<open>update_user_balances_updated_at\<close> sets \<open>updated_at = now()\<close> on each
  updated row. An update that matches no row is not an error.
\<close>

definition update_balance :: "string \<Rightarrow> int \<Rightarrow> int \<Rightarrow> database \<Rightarrow> (db_error + unit) \<times> database" where
  "update_balance u newCoins newBonusCoins d =
     (Inr (),
      d\<lparr>user_balances :=
          map (\<lambda>r. if user_id r = u
                    then r\<lparr>coins := newCoins, bonus_coins := newBonusCoins, updated_at := now d\<rparr>
                    else r)
              (user_balances d)\<rparr>)"




text \<open>
  \<^verbatim>\<open>.from('user_watchlist').select(`*, movie:movies (...), category:user_watchlist_categories (...)`)
   .eq('user_id', userId).order('created_at', { ascending: false })\<close>
  Each row comes with the movie and the category it references, or null where there is
  none to embed; \<open>movies\<close> is readable by everyone, a category by its owner only.
\<close>

record WatchlistItem = WatchlistRow +
  movie :: "Movie option"
  category :: "UserWatchlistCategory option"

definition embed_item :: "database \<Rightarrow> WatchlistRow \<Rightarrow> WatchlistItem" where
  "embed_item d r =
     WatchlistRow.extend r
       (WatchlistItem.fields
          (find (\<lambda>m. movie_id m = wl_movie_id r) (movies d))
          (case wl_category_id r of
             None \<Rightarrow> None
           | Some c \<Rightarrow>
               find (\<lambda>k. cat_id k = c \<and> cat_user_id k = wl_user_id r) (user_watchlist_categories d)))"

definition select_watchlist :: "string \<Rightarrow> database \<Rightarrow> (db_error + WatchlistItem list) \<times> database" where
  "select_watchlist u d =
     (Inr (map (embed_item d)
             (rev (sort_key wl_created_at (filter (\<lambda>r. wl_user_id r = u) (user_watchlist d))))),
      d)"

text \<open>
  \<^verbatim>\<open>.from('user_watchlist_categories').select('*').eq('user_id', userId).order('name', { ascending: true })\<close>
\<close>

definition select_categories ::
  "string \<Rightarrow> database \<Rightarrow> (db_error + UserWatchlistCategory list) \<times> database"
where
  "select_categories u d =
     (Inr (sort_key cat_name (filter (\<lambda>k. cat_user_id k = u) (user_watchlist_categories d))), d)"

text \<open>
  \<^verbatim>\<open>.from('user_watchlist_categories').delete().eq('id', categoryId).eq('user_id', userId)\<close>
  against the column added by
  \<^verbatim>\<open>
  ALTER TABLE user_watchlist ADD COLUMN category_id uuid
    REFERENCES user_watchlist_categories(id) ON DELETE SET NULL;
  \<close>
  For each category row that is deleted, the referential action sets \<open>category_id\<close> to
  null in the watchlist rows that reference it. \<open>user_watchlist\<close> has no update trigger.
\<close>

definition delete_category :: "string \<Rightarrow> string \<Rightarrow> database \<Rightarrow> (db_error + unit) \<times> database" where
  "delete_category c u d =
     (let deleted = filter (\<lambda>k. cat_id k = c \<and> cat_user_id k = u) (user_watchlist_categories d)
      in (Inr (),
          d\<lparr>user_watchlist_categories :=
               filter (\<lambda>k. \<not> (cat_id k = c \<and> cat_user_id k = u)) (user_watchlist_categories d),
            user_watchlist :=
               map (\<lambda>r. if wl_category_id r \<in> Some ` cat_id ` set deleted
                         then r\<lparr>wl_category_id := None\<rparr> else r)
                   (user_watchlist d)\<rparr>))"

section \<open>Application state\<close>

text \<open>
  The callbacks that the hooks hand to the error bus, each named by the call it makes.
\<close>

datatype retry =
    RetryUpdateBalance int int
  | RetryUnlockEpisode int int
  | RetryFetchWatchlist
  | RetryFetchCategories
  | RetryDeleteCategory string

text \<open>
  \<open>MovieWithProgress\<close> as \<open>fetchWatchlist\<close> builds it: the embedded movie, spread, and
  the fields set beside it.
\<close>

record MovieWithProgress = Movie +
  is_in_watchlist :: bool
  mw_category_id :: "string option"
  mw_category :: "UserWatchlistCategory option"
  poster :: string
  landscapePoster :: string
  viewCount :: string

text \<open>
  One record holds what the hooks and the error provider keep in React state, next to
  the world outside: the database, the transport and the sources of randomness.
  \<^item> \<open>faults\<close> scripts the transport: each remote statement consumes the head; \<open>Some e\<close>
    makes it fail with \<open>e\<close> before it reaches the database, \<open>None\<close> (or an exhausted
    script) lets it through.
  \<^item> \<open>idgen\<close> and \<open>idctr\<close> stand for \<open>Date.now().toString() + Math.random()...\<close>: the
    \<open>n\<close>-th identifier drawn is \<open>idgen n\<close>.
  \<^item> \<open>timers\<close> are the pending \<open>setTimeout\<close> calls of the error provider: the delay in
    milliseconds and the identifier that the callback removes.
  \<^item> \<open>clock\<close> is what \<open>new Date().toISOString()\<close> returns.
  Each call of a hook function reads the state of the render it was created in; a call
  here reads the state it is given, so calls are taken one after the other, each from
  an up-to-date render.
\<close>

record app =
  userId :: "string option"
  balance :: "UserBalance option"
  unlockedEpisodes :: "int set"
  watchlist :: "MovieWithProgress list"
  watchlistIds :: "int set"
  wl_loading :: bool
  wl_error :: "string option"
  categories :: "UserWatchlistCategory list"
  cat_loading :: bool
  cat_error :: "string option"
  errors :: "retry ErrorMessage list"
  timers :: "(int \<times> string) list"
  idgen :: "nat \<Rightarrow> string"
  idctr :: nat
  db :: database
  faults :: "db_error option list"
  clock :: string

definition remote_call :: "(database \<Rightarrow> (db_error + 'a) \<times> database) \<Rightarrow> app \<Rightarrow> (db_error + 'a) \<times> app" where
  "remote_call statement s =
     (case faults s of
        Some e # rest \<Rightarrow> (Inl e, s\<lparr>faults := rest\<rparr>)
      | None # rest \<Rightarrow> (case statement (db s) of (r, d') \<Rightarrow> (r, s\<lparr>db := d', faults := rest\<rparr>))
      | [] \<Rightarrow> (case statement (db s) of (r, d') \<Rightarrow> (r, s\<lparr>db := d'\<rparr>)))"

text \<open>What a \<open>catch\<close> receives from \<open>withRetry\<close>, as a JavaScript value.\<close>

fun thrown_value :: "db_error option \<Rightarrow> js_value" where
  "thrown_value None = JUndefined"
| "thrown_value (Some (DbError c m)) = JObject [(''message'', JString m), (''code'', JString c)]"

section \<open>Error notification bus (contexts/ErrorContext.tsx)\<close>

text \<open>
  \<^verbatim>\<open>
  const addError = (error: Omit<ErrorMessage, 'id'>) => {
    const id = Date.now().toString() + Math.random().toString(36).substr(2, 9);
    const newError: ErrorMessage = { ...error, id, duration: error.duration || 5000 };
    setErrors(prev => [...prev, newError]);
    if (newError.duration && newError.duration > 0) {
      setTimeout(() => { removeError(id); }, newError.duration);
    }
  };
  const removeError = (id: string) => {
    setErrors(prev => prev.filter(error => error.id !== id));
  };
  \<close>
  \<open>error.duration || 5000\<close> is 5000 when the duration is absent or 0.
\<close>

definition addError :: "retry ErrorMessageInput \<Rightarrow> app \<Rightarrow> app" where
  "addError e s =
     (let i = idgen s (idctr s);
          d = (case duration e of None \<Rightarrow> 5000 | Some n \<Rightarrow> if n = 0 then 5000 else n);
          newError = ErrorMessageInput.extend (e\<lparr>duration := Some d\<rparr>) (ErrorMessage.fields i);
          s1 = s\<lparr>errors := errors s @ [newError], idctr := Suc (idctr s)\<rparr>
      in if d > 0 then s1\<lparr>timers := timers s1 @ [(d, i)]\<rparr> else s1)"

definition removeError :: "string \<Rightarrow> app \<Rightarrow> app" where
  "removeError i s = s\<lparr>errors := filter (\<lambda>e. msg_id e \<noteq> i) (errors s)\<rparr>"

text \<open>
  A pending timer fires: it leaves the list of timers and its callback runs.
\<close>

definition fire_timer :: "nat \<Rightarrow> app \<Rightarrow> app" where
  "fire_timer k s =
     (if k < length (timers s)
      then removeError (snd (timers s ! k)) (s\<lparr>timers := take k (timers s) @ drop (Suc k) (timers s)\<rparr>)
      else s)"

section \<open>Coin ledger (hooks/useUserCoins.ts)\<close>

text \<open>
  \<^verbatim>\<open>
  const updateBalance = async (newCoins: number, newBonusCoins: number) => {
    if (!userId) return false;
    try {
      const { error } = await withRetry(async () => {
        const result = await supabase.from('user_balances')
          .update({ coins: newCoins, bonus_coins: newBonusCoins }).eq('user_id', userId);
        if (result.error) throw result.error;
        return result;
      });
      if (error) throw error;
      if (balance) {
        setBalance({ ...balance, coins: newCoins, bonus_coins: newBonusCoins,
                     updated_at: new Date().toISOString() });
      }
      return true;
    } catch (err: any) {
      addError(createErrorMessage('Failed to update your balance. Please try again.',
        'error', () => updateBalance(newCoins, newBonusCoins), 'Retry'));
      return false;
    }
  };
  \<close>
  \<open>!userId\<close> holds for null and for the empty string.
\<close>

definition signed_in :: "app \<Rightarrow> string option" where
  "signed_in s = (case userId s of None \<Rightarrow> None | Some u \<Rightarrow> if u = [] then None else Some u)"

definition updateBalance :: "int \<Rightarrow> int \<Rightarrow> app \<Rightarrow> bool \<times> app" where
  "updateBalance newCoins newBonusCoins s =
     (case signed_in s of
        None \<Rightarrow> (False, s)
      | Some u \<Rightarrow>
          (case withRetry (remote_call (update_balance u newCoins newBonusCoins)) defaultRetryOptions s of
             (Inr r, waited, s1) \<Rightarrow>
               (True,
                case balance s of
                  None \<Rightarrow> s1
                | Some b \<Rightarrow>
                    s1\<lparr>balance := Some (b\<lparr>coins := newCoins, bonus_coins := newBonusCoins,
                                          updated_at := clock s1\<rparr>)\<rparr>)
           | (Inl err, waited, s1) \<Rightarrow>
               (False,
                addError (createErrorMessage ''Failed to update your balance. Please try again.''
                            (Some error) (Some (RetryUpdateBalance newCoins newBonusCoins))
                            (Some ''Retry'')) s1)))"

text \<open>
  \<^verbatim>\<open>
  const addCoins = async (coinsToAdd: number, bonusCoinsToAdd: number = 0) => {
    if (!balance) return false;
    const newCoins = balance.coins + coinsToAdd;
    const newBonusCoins = balance.bonus_coins + bonusCoinsToAdd;
    return await updateBalance(newCoins, newBonusCoins);
  };
  \<close>
\<close>

definition addCoins :: "int \<Rightarrow> int \<Rightarrow> app \<Rightarrow> bool \<times> app" where
  "addCoins coinsToAdd bonusCoinsToAdd s =
     (case balance s of
        None \<Rightarrow> (False, s)
      | Some b \<Rightarrow> updateBalance (coins b + coinsToAdd) (bonus_coins b + bonusCoinsToAdd) s)"

text \<open>
  \<^verbatim>\<open>
  const spendCoins = async (coinsToSpend: number) => {
    if (!balance) return false;
    const totalAvailable = balance.coins + balance.bonus_coins;
    if (totalAvailable < coinsToSpend) {
      addError(createErrorMessage(
        'Insufficient coins. Please purchase more coins to continue.', 'warning'));
      return false;
    }
    // Spend bonus coins first, then regular coins
    let newBonusCoins = balance.bonus_coins;
    let newCoins = balance.coins;
    let remaining = coinsToSpend;
    if (remaining > 0 && newBonusCoins > 0) {
      const bonusToSpend = Math.min(remaining, newBonusCoins);
      newBonusCoins -= bonusToSpend;
      remaining -= bonusToSpend;
    }
    if (remaining > 0) { newCoins -= remaining; }
    return await updateBalance(newCoins, newBonusCoins);
  };
  \<close>
  \<open>spend_split\<close> is the part between the affordability check and the update: it
  returns \<open>(newCoins, newBonusCoins)\<close>.
\<close>

definition spend_split :: "UserBalance \<Rightarrow> int \<Rightarrow> int \<times> int" where
  "spend_split b coinsToSpend =
     (let newBonusCoins = bonus_coins b;
          newCoins = coins b;
          remaining = coinsToSpend;
          (newBonusCoins, remaining) =
             (if remaining > 0 \<and> newBonusCoins > 0
              then (let bonusToSpend = min remaining newBonusCoins
                    in (newBonusCoins - bonusToSpend, remaining - bonusToSpend))
              else (newBonusCoins, remaining));
          newCoins = (if remaining > 0 then newCoins - remaining else newCoins)
      in (newCoins, newBonusCoins))"

definition spendCoins :: "int \<Rightarrow> app \<Rightarrow> bool \<times> app" where
  "spendCoins coinsToSpend s =
     (case balance s of
        None \<Rightarrow> (False, s)
      | Some b \<Rightarrow>
          let totalAvailable = coins b + bonus_coins b
          in if totalAvailable < coinsToSpend
             then (False,
                   addError (createErrorMessage
                               ''Insufficient coins. Please purchase more coins to continue.''
                               (Some warning) None None) s)
             else (case spend_split b coinsToSpend of
                     (newCoins, newBonusCoins) \<Rightarrow> updateBalance newCoins newBonusCoins s))"

text \<open>
  \<^verbatim>\<open>
  const canAfford = (cost: number) => {
    if (!balance) return false;
    return (balance.coins + balance.bonus_coins) >= cost;
  };
  ...
  totalCoins: balance ? balance.coins + balance.bonus_coins : 0
  \<close>
\<close>

definition canAfford :: "int \<Rightarrow> app \<Rightarrow> bool" where
  "canAfford cost s = (case balance s of None \<Rightarrow> False | Some b \<Rightarrow> coins b + bonus_coins b \<ge> cost)"

definition totalCoins :: "app \<Rightarrow> int" where
  "totalCoins s = (case balance s of None \<Rightarrow> 0 | Some b \<Rightarrow> coins b + bonus_coins b)"

section \<open>Episode unlock gate (hooks/useEpisodeUnlocks.ts)\<close>


section \<open>Watchlist (hooks/useWatchlist.ts)\<close>

text \<open>
  \<^verbatim>\<open>
  const fetchWatchlist = async () => {
    if (!userId) { setWatchlist([]); setWatchlistIds(new Set()); return; }
    setLoading(true);
    setError(null);
    try {
      const { data, error } = await withRetry(async () => {
        const result = await supabase.from('user_watchlist').select(...)
          .eq('user_id', userId).order('created_at', { ascending: false });
        if (result.error) throw result.error;
        return result;
      });
      if (error) throw error;
      const moviesInWatchlist: MovieWithProgress[] = (data as (UserWatchlistItem & { movie: any })[])
        .filter(item => item.movie) // Filter out any items without movie data
        .map(item => {
          return {
            ...item.movie,
            is_in_watchlist: true,
            category_id: item.category_id,
            category: item.category,
            poster: item.movie.poster_url,
            landscapePoster: item.movie.landscape_poster_url,
            viewCount: item.movie.view_count
          };
        });
      const movieIds = new Set(moviesInWatchlist.map(movie => movie.id));
      setWatchlist(moviesInWatchlist);
      setWatchlistIds(movieIds);
    } catch (err: any) {
      const errorMessage = getErrorMessage(err);
      setError(errorMessage);
      addError(createErrorMessage(
        'Failed to load your watchlist. Please check your connection and try again.',
        'error', () => fetchWatchlist(), 'Retry'));
      setWatchlist([]);
      setWatchlistIds(new Set());
    } finally {
      setLoading(false);
    }
  };
  const isInWatchlist = (movieId: number) => { return watchlistIds.has(movieId); };
  \<close>
  The result of \<open>fetchWatchlist\<close> here says whether the try block ran to its end.
\<close>

definition to_movie_with_progress :: "WatchlistItem \<Rightarrow> MovieWithProgress list" where
  "to_movie_with_progress item =
     (case movie item of
        None \<Rightarrow> []
      | Some m \<Rightarrow>
          [Movie.extend m
             (MovieWithProgress.fields True (wl_category_id item) (category item)
                (poster_url m) (landscape_poster_url m) (view_count m))])"

definition fetchWatchlist :: "app \<Rightarrow> bool \<times> app" where
  "fetchWatchlist s =
     (case signed_in s of
        None \<Rightarrow> (True, s\<lparr>watchlist := [], watchlistIds := {}\<rparr>)
      | Some u \<Rightarrow>
          (case withRetry (remote_call (select_watchlist u)) defaultRetryOptions
                  (s\<lparr>wl_loading := True, wl_error := None\<rparr>) of
             (Inr data, waited, s1) \<Rightarrow>
               let moviesInWatchlist = concat (map to_movie_with_progress data);
                   movieIds = set (map movie_id moviesInWatchlist)
               in (True, s1\<lparr>watchlist := moviesInWatchlist, watchlistIds := movieIds,
                              wl_loading := False\<rparr>)
           | (Inl err, waited, s1) \<Rightarrow>
               (False,
                (addError (createErrorMessage
                             ''Failed to load your watchlist. Please check your connection and try again.''
                             (Some error) (Some RetryFetchWatchlist) (Some ''Retry''))
                   (s1\<lparr>wl_error := Some (getErrorMessage (thrown_value err))\<rparr>))
                \<lparr>watchlist := [], watchlistIds := {}, wl_loading := False\<rparr>)))"

definition isInWatchlist :: "int \<Rightarrow> app \<Rightarrow> bool" where
  "isInWatchlist movieId s = (movieId \<in> watchlistIds s)"

section \<open>Watchlist categories (hooks/useWatchlistCategories.ts)\<close>

text \<open>
  \<^verbatim>\<open>
  const fetchCategories = async () => {
    if (!userId) { setCategories([]); return; }
    setLoading(true);
    setError(null);
    try {
      const { data, error } = await withRetry(async () => { ... select('*') ... });
      if (error) throw error;
      setCategories(data || []);
    } catch (err: any) {
      const errorMessage = getErrorMessage(err);
      setError(errorMessage);
      addError(createErrorMessage('Failed to load watchlist categories. Please try again.',
        'error', () => fetchCategories(), 'Retry'));
      setCategories([]);
    } finally {
      setLoading(false);
    }
  };
  \<close>
\<close>

definition fetchCategories :: "app \<Rightarrow> app" where
  "fetchCategories s =
     (case signed_in s of
        None \<Rightarrow> s\<lparr>categories := []\<rparr>
      | Some u \<Rightarrow>
          (case withRetry (remote_call (select_categories u)) defaultRetryOptions
                  (s\<lparr>cat_loading := True, cat_error := None\<rparr>) of
             (Inr data, waited, s1) \<Rightarrow> s1\<lparr>categories := data, cat_loading := False\<rparr>
           | (Inl err, waited, s1) \<Rightarrow>
               (addError (createErrorMessage ''Failed to load watchlist categories. Please try again.''
                            (Some error) (Some RetryFetchCategories) (Some ''Retry''))
                  (s1\<lparr>cat_error := Some (getErrorMessage (thrown_value err))\<rparr>))
               \<lparr>categories := [], cat_loading := False\<rparr>))"

text \<open>
  \<^verbatim>\<open>
  const deleteCategory = async (categoryId: string) => {
    if (!userId) return false;
    try {
      const { error } = await withRetry(async () => {
        const result = await supabase.from('user_watchlist_categories')
          .delete().eq('id', categoryId).eq('user_id', userId);
        if (result.error) throw result.error;
        return result;
      });
      if (error) throw error;
      await fetchCategories();
      addError(createErrorMessage('Category deleted successfully.', 'info'));
      return true;
    } catch (err: any) {
      addError(createErrorMessage('Failed to delete category. Please try again.',
        'error', () => deleteCategory(categoryId), 'Retry'));
      return false;
    }
  };
  \<close>
\<close>

definition deleteCategory :: "string \<Rightarrow> app \<Rightarrow> bool \<times> app" where
  "deleteCategory categoryId s =
     (case signed_in s of
        None \<Rightarrow> (False, s)
      | Some u \<Rightarrow>
          (case withRetry (remote_call (delete_category categoryId u)) defaultRetryOptions s of
             (Inr r, waited, s1) \<Rightarrow>
               (True,
                addError (createErrorMessage ''Category deleted successfully.'' (Some info) None None)
                  (fetchCategories s1))
           | (Inl err, waited, s1) \<Rightarrow>
               (False,
                addError (createErrorMessage ''Failed to delete category. Please try again.''
                            (Some error) (Some (RetryDeleteCategory categoryId)) (Some ''Retry'')) s1)))"

section \<open>Vocabulary of the properties\<close>

text \<open>
  The invariant of a balance: both fields are non-negative. For the ledger it is asked
  of the balance held locally and of every persisted row.
\<close>

definition balance_ok :: "'a UserBalance_scheme \<Rightarrow> bool" where
  "balance_ok b = (0 \<le> coins b \<and> 0 \<le> bonus_coins b)"

definition ledger_invariant :: "app \<Rightarrow> bool" where
  "ledger_invariant s =
     ((case balance s of None \<Rightarrow> True | Some b \<Rightarrow> balance_ok b) \<and>
      list_all balance_ok (user_balances (db s)))"





text \<open>
  The transport lets a statement of \<open>withRetry\<close>'s four attempts through: at most three
  faults stand at the head of the script.
\<close>

definition transport_ok :: "app \<Rightarrow> bool" where
  "transport_ok s = (length (takeWhile (\<lambda>f. f \<noteq> None) (faults s)) \<le> 3)"

text \<open>
  A concrete world for running the hooks: user \<open>u1\<close> is signed in with 100 coins and 50
  bonus coins, has one category and one watchlist row; the transport has no fault.
\<close>

definition demo_balance :: UserBalance where
  "demo_balance = \<lparr>user_id = ''u1'', coins = 100, bonus_coins = 50,
     created_at = ''2025-08-01T00:00:00.000Z'', updated_at = ''2025-08-01T00:00:00.000Z''\<rparr>"

definition demo_movie :: "int \<Rightarrow> Movie" where
  "demo_movie i = \<lparr>movie_id = i, title = ''Episode'', genre = ''Drama'', view_count = ''1K'',
     poster_url = ''p.jpg'', landscape_poster_url = ''l.jpg'', badge = None, episodes = None,
     duration_seconds = Some 60, movie_created_at = ''2025-08-01T00:00:00.000Z'',
     series_id = Some ''s1'', episode_number = Some i\<rparr>"

definition demo_db :: database where
  "demo_db = \<lparr>user_balances = [demo_balance],
     user_episode_unlocks = [],
     user_watchlist_categories =
       [\<lparr>cat_id = ''c1'', cat_user_id = ''u1'', cat_name = ''Later'', cat_color = ''#3B82F6'',
         cat_created_at = ''2025-08-02T00:00:00.000Z'', cat_updated_at = ''2025-08-02T00:00:00.000Z''\<rparr>],
     user_watchlist =
       [\<lparr>wl_id = ''w1'', wl_user_id = ''u1'', wl_movie_id = 1, wl_category_id = Some ''c1'',
         wl_created_at = ''2025-08-03T00:00:00.000Z''\<rparr>,
        \<lparr>wl_id = ''w2'', wl_user_id = ''u2'', wl_movie_id = 2, wl_category_id = None,
         wl_created_at = ''2025-08-04T00:00:00.000Z''\<rparr>],
     movies = [demo_movie 1, demo_movie 2],
     now = ''2025-08-19T00:00:00.000Z''\<rparr>"

definition demo_app :: app where
  "demo_app = \<lparr>userId = Some ''u1'', balance = Some demo_balance, unlockedEpisodes = {},
     watchlist = [], watchlistIds = {}, wl_loading = False, wl_error = None,
     categories = [], cat_loading = False, cat_error = None,
     errors = [], timers = [], idgen = show_nat, idctr = 0,
     db = demo_db, faults = [], clock = ''2025-08-19T00:00:01.000Z''\<rparr>"


section \<open>Properties\<close>

subsection \<open>Retry wrapper\<close>

text \<open>
  After \<open>k\<close> failures followed by a success the loop returns the success, having waited
  once per failure; started at attempt \<open>a\<close>, the waits are those of attempts
  \<open>a, ..., a + k - 1\<close>.
\<close>

lemma retry_loop_succeeds:
  "fails_then operation k s = Some (es, s1) \<Longrightarrow> operation s1 = (Inr v, s2) \<Longrightarrow>
   0 \<le> attempt \<Longrightarrow> attempt + int k \<le> maxR \<Longrightarrow>
   retry_loop operation maxR dl bk attempt lastError waited s =
     (Inr v, waited @ map (\<lambda>i. if bk then dl * 2 ^ i else dl) [nat attempt ..< nat attempt + k], s2)"
proof (induction k arbitrary: s es attempt lastError waited)
  case 0
  then show ?case by (simp add: retry_loop.simps [of _ _ _ _ attempt])
next
  case (Suc k)
  from Suc.prems(1) obtain e s' es' where
    op: "operation s = (Inl e, s')" and ft: "fails_then operation k s' = Some (es', s1)"
    by (auto split: prod.splits sum.splits option.splits)
  have nat_eq: "nat (attempt + 1) = Suc (nat attempt)" using Suc.prems(3) by simp
  have "retry_loop operation maxR dl bk (attempt + 1) (Some e)
          (waited @ [if bk then dl * 2 ^ nat attempt else dl]) s' =
        (Inr v, (waited @ [if bk then dl * 2 ^ nat attempt else dl]) @
           map (\<lambda>i. if bk then dl * 2 ^ i else dl) [nat (attempt + 1) ..< nat (attempt + 1) + k], s2)"
    using Suc.prems by (intro Suc.IH [OF ft]) auto
  then show ?case
    using op Suc.prems(3,4)
    by (simp add: retry_loop.simps [of _ _ _ _ attempt] nat_eq upt_conv_Cons)
qed

text \<open>
  When the attempt with index \<open>maxRetries\<close> fails too, the loop breaks without waiting
  again and the last error is thrown.
\<close>

lemma retry_loop_gives_up:
  "fails_then operation (Suc k) s = Some (es, s1) \<Longrightarrow>
   0 \<le> attempt \<Longrightarrow> attempt + int k = maxR \<Longrightarrow>
   retry_loop operation maxR dl bk attempt lastError waited s =
     (Inl (Some (last es)), waited @ map (\<lambda>i. if bk then dl * 2 ^ i else dl) [nat attempt ..< nat attempt + k], s1)"
proof (induction k arbitrary: s es attempt lastError waited)
  case 0
  then show ?case
    by (subst retry_loop.simps) (auto split: prod.splits sum.splits option.splits)
next
  case (Suc k)
  from Suc.prems(1) obtain e s' es' where
    op: "operation s = (Inl e, s')" and ft: "fails_then operation (Suc k) s' = Some (es', s1)"
    and es: "es = e # es'"
    by (auto split: prod.splits sum.splits option.splits)
  have ne: "es' \<noteq> []" using ft by (auto split: prod.splits sum.splits option.splits)
  have nat_eq: "nat (attempt + 1) = Suc (nat attempt)" using Suc.prems(2) by simp
  have "retry_loop operation maxR dl bk (attempt + 1) (Some e)
          (waited @ [if bk then dl * 2 ^ nat attempt else dl]) s' =
        (Inl (Some (last es')), (waited @ [if bk then dl * 2 ^ nat attempt else dl]) @
           map (\<lambda>i. if bk then dl * 2 ^ i else dl) [nat (attempt + 1) ..< nat (attempt + 1) + k], s1)"
    using Suc.prems by (intro Suc.IH [OF ft]) auto
  then show ?case
    using op Suc.prems(2,3) ne es
    by (simp add: retry_loop.simps [of _ _ _ _ attempt] nat_eq upt_conv_Cons)
qed



subsection \<open>Remote statements under retry\<close>

text \<open>
  Among the first \<open>n\<close> invocations of an operation, either all throw or there is a
  first one that returns.
\<close>

lemma fails_then_or_returns:
  "(\<exists>es s1. fails_then operation n s = Some (es, s1)) \<or>
   (\<exists>k es s1 v s2. k < n \<and> fails_then operation k s = Some (es, s1) \<and> operation s1 = (Inr v, s2))"
proof (induction n arbitrary: s)
  case 0
  show ?case by simp
next
  case (Suc n)
  obtain r s' where op: "operation s = (r, s')" by force
  show ?case
  proof (cases r)
    case (Inr v)
    with op have "0 < Suc n \<and> fails_then operation 0 s = Some ([], s) \<and> operation s = (Inr v, s')"
      by simp
    then show ?thesis by blast
  next
    case (Inl e)
    from Suc.IH [of s'] show ?thesis
    proof
      assume "\<exists>es s1. fails_then operation n s' = Some (es, s1)"
      then show ?thesis using op Inl by auto
    next
      assume "\<exists>k es s1 v s2. k < n \<and> fails_then operation k s' = Some (es, s1) \<and> operation s1 = (Inr v, s2)"
      then obtain k es s1 v s2 where
        k: "k < n" "fails_then operation k s' = Some (es, s1)" "operation s1 = (Inr v, s2)" by blast
      then have "Suc k < Suc n \<and> fails_then operation (Suc k) s = Some (e # es, s1) \<and> operation s1 = (Inr v, s2)"
        using op Inl by simp
      then show ?thesis by blast
    qed
  qed
qed

lemma fails_then_Suc_nonempty:
  "fails_then operation (Suc n) s = Some (es, s1) \<Longrightarrow> es \<noteq> []"
  by (auto split: prod.splits sum.splits option.splits)

lemma remote_call_cases:
  assumes "remote_call statement s = (r, s')"
  shows "(\<exists>e f. r = Inl e \<and> Some e \<in> set (faults s) \<and> s' = s\<lparr>faults := f\<rparr> \<and> set f \<subseteq> set (faults s))
       \<or> (\<exists>d f. statement (db s) = (r, d) \<and> s' = s\<lparr>db := d, faults := f\<rparr> \<and> set f \<subseteq> set (faults s))"
proof (cases "faults s")
  case Nil
  obtain r0 d where st: "statement (db s) = (r0, d)" by force
  with assms Nil have "r = r0" "s' = s\<lparr>db := d\<rparr>"
    by (auto simp: remote_call_def)
  moreover have "s\<lparr>db := d\<rparr> = s\<lparr>db := d, faults := []\<rparr>"
    using Nil by (cases s) simp
  ultimately have "statement (db s) = (r, d) \<and> s' = s\<lparr>db := d, faults := []\<rparr> \<and> set [] \<subseteq> set (faults s)"
    using st by simp
  then show ?thesis by (intro disjI2 exI)
next
  case (Cons x rest)
  show ?thesis
  proof (cases x)
    case None
    obtain r0 d where st: "statement (db s) = (r0, d)" by force
    with assms Cons None have "r = r0" "s' = s\<lparr>db := d, faults := rest\<rparr>"
      by (simp_all add: remote_call_def)
    with st Cons have "statement (db s) = (r, d) \<and> s' = s\<lparr>db := d, faults := rest\<rparr> \<and> set rest \<subseteq> set (faults s)"
      by auto
    then show ?thesis by (intro disjI2 exI)
  next
    case (Some e)
    with assms Cons have "r = Inl e" "s' = s\<lparr>faults := rest\<rparr>"
      by (simp_all add: remote_call_def)
    with Cons Some have "r = Inl e \<and> Some e \<in> set (faults s) \<and> s' = s\<lparr>faults := rest\<rparr> \<and> set rest \<subseteq> set (faults s)"
      by auto
    then show ?thesis by (intro disjI1 exI)
  qed
qed

lemma fails_then_remote:
  assumes keeps: "\<forall>d e d'. statement d = (Inl e, d') \<longrightarrow> d' = d"
  shows "fails_then (remote_call statement) k s = Some (es, s1) \<Longrightarrow>
     (\<exists>f. s1 = s\<lparr>faults := f\<rparr> \<and> set f \<subseteq> set (faults s)) \<and>
     (\<forall>e \<in> set es. Some e \<in> set (faults s) \<or> (\<exists>d'. statement (db s) = (Inl e, d')))"
proof (induction k arbitrary: s es)
  case 0
  then have "s1 = s" "es = []" by simp_all
  then show ?case by (auto intro: exI [of _ "faults s"])
next
  case (Suc k)
  from Suc.prems obtain e s' es' where
    op: "remote_call statement s = (Inl e, s')" and ft: "fails_then (remote_call statement) k s' = Some (es', s1)"
    and es: "es = e # es'"
    by (auto split: prod.splits sum.splits option.splits)
  from remote_call_cases [OF op] keeps
  obtain f0 where s': "s' = s\<lparr>faults := f0\<rparr>" "set f0 \<subseteq> set (faults s)"
    and e: "Some e \<in> set (faults s) \<or> (\<exists>d'. statement (db s) = (Inl e, d'))"
  proof (elim disjE exE conjE)
    fix e' f
    assume "Inl e = Inl e'" "Some e' \<in> set (faults s)" "s' = s\<lparr>faults := f\<rparr>" "set f \<subseteq> set (faults s)"
    then show ?thesis using that [of f] by simp
  next
    fix d f
    assume a: "statement (db s) = (Inl e, d)" "s' = s\<lparr>db := d, faults := f\<rparr>" "set f \<subseteq> set (faults s)"
    with keeps have "d = db s" by blast
    with a show ?thesis using that [of f] by auto
  qed
  from Suc.IH [OF ft] obtain f where
    s1: "s1 = s'\<lparr>faults := f\<rparr>" "set f \<subseteq> set (faults s')"
    and es': "\<forall>e \<in> set es'. Some e \<in> set (faults s') \<or> (\<exists>d'. statement (db s') = (Inl e, d'))"
    by blast
  have "s1 = s\<lparr>faults := f\<rparr>" "set f \<subseteq> set (faults s)" using s1 s' by auto
  moreover have "\<forall>e \<in> set es. Some e \<in> set (faults s) \<or> (\<exists>d'. statement (db s) = (Inl e, d'))"
    using es e es' s' by auto
  ultimately show ?case by blast
qed

lemma withRetry_remote_cases:
  assumes keeps: "\<forall>d e d'. statement d = (Inl e, d') \<longrightarrow> d' = d"
    and run: "withRetry (remote_call statement) defaultRetryOptions s = (res, waited, s')"
  shows "(\<exists>v d f. res = Inr v \<and> statement (db s) = (Inr v, d) \<and> s' = s\<lparr>db := d, faults := f\<rparr>
            \<and> set f \<subseteq> set (faults s))
       \<or> (\<exists>e f. res = Inl (Some e) \<and> s' = s\<lparr>faults := f\<rparr> \<and> set f \<subseteq> set (faults s)
            \<and> (Some e \<in> set (faults s) \<or> (\<exists>d'. statement (db s) = (Inl e, d'))))"
proof -
  have unf: "withRetry (remote_call statement) defaultRetryOptions s =
               retry_loop (remote_call statement) (int 3) 1000 True 0 None [] s"
    by (simp add: withRetry_def resolve_options_def defaultRetryOptions_def)
  from fails_then_or_returns [of "remote_call statement" "Suc 3" s] show ?thesis
  proof
    assume "\<exists>es s1. fails_then (remote_call statement) (Suc 3) s = Some (es, s1)"
    then obtain es s1 where ft: "fails_then (remote_call statement) (Suc 3) s = Some (es, s1)" by blast
    from retry_loop_gives_up [OF ft, of 0 "int 3" 1000 True None "[]"] run unf
    have res: "res = Inl (Some (last es))" "s' = s1" by simp_all
    have "es \<noteq> []" using ft by (rule fails_then_Suc_nonempty)
    then have "last es \<in> set es" by simp
    with fails_then_remote [OF keeps ft] res show ?thesis by blast
  next
    assume "\<exists>k es s1 v s2. k < Suc 3 \<and> fails_then (remote_call statement) k s = Some (es, s1)
               \<and> remote_call statement s1 = (Inr v, s2)"
    then obtain k es s1 v s2 where k: "k < Suc 3"
      and ft: "fails_then (remote_call statement) k s = Some (es, s1)"
      and ok: "remote_call statement s1 = (Inr v, s2)" by blast
    from retry_loop_succeeds [OF ft ok, of 0 "int 3" 1000 True None "[]"] k run unf
    have res: "res = Inr v" "s' = s2" by simp_all
    from fails_then_remote [OF keeps ft] obtain f1 where
      s1: "s1 = s\<lparr>faults := f1\<rparr>" "set f1 \<subseteq> set (faults s)" by blast
    from remote_call_cases [OF ok] obtain d f where
      "statement (db s1) = (Inr v, d)" "s2 = s1\<lparr>db := d, faults := f\<rparr>" "set f \<subseteq> set (faults s1)"
      by auto
    with s1 have "statement (db s) = (Inr v, d)" "s2 = s\<lparr>db := d, faults := f\<rparr>" "set f \<subseteq> set (faults s)"
      by auto
    with res show ?thesis by blast
  qed
qed

lemma fails_then_leading_faults:
  "k \<le> length (takeWhile (\<lambda>f. f \<noteq> None) (faults s)) \<Longrightarrow>
   \<exists>es. fails_then (remote_call statement) k s = Some (es, s\<lparr>faults := drop k (faults s)\<rparr>)"
proof (induction k arbitrary: s)
  case 0
  show ?case by simp
next
  case (Suc k)
  then obtain e rest where f: "faults s = Some e # rest"
    by (cases "faults s") (auto split: if_splits)
  then have rc: "remote_call statement s = (Inl e, s\<lparr>faults := rest\<rparr>)"
    by (simp add: remote_call_def)
  have "k \<le> length (takeWhile (\<lambda>f. f \<noteq> None) (faults (s\<lparr>faults := rest\<rparr>)))"
    using Suc.prems f by simp
  from Suc.IH [OF this] obtain es where
    "fails_then (remote_call statement) k (s\<lparr>faults := rest\<rparr>) = Some (es, s\<lparr>faults := drop k rest\<rparr>)"
    by auto
  with rc f show ?case by simp
qed

lemma withRetry_remote_ok:
  assumes ok: "transport_ok s" and st: "statement (db s) = (Inr v, d)"
  shows "\<exists>waited f. withRetry (remote_call statement) defaultRetryOptions s
            = (Inr v, waited, s\<lparr>db := d, faults := f\<rparr>)"
proof -
  let ?k = "length (takeWhile (\<lambda>f. f \<noteq> None) (faults s))"
  have k3: "?k \<le> 3" using ok by (simp add: transport_ok_def)
  from fails_then_leading_faults [of ?k s statement] obtain es where
    ft: "fails_then (remote_call statement) ?k s = Some (es, s\<lparr>faults := drop ?k (faults s)\<rparr>)"
    by auto
  let ?s0 = "s\<lparr>faults := drop ?k (faults s)\<rparr>"
  have dw: "faults ?s0 = dropWhile (\<lambda>f. f \<noteq> None) (faults s)"
    by (simp add: dropWhile_eq_drop)
  have st0: "statement (db ?s0) = (Inr v, d)" using st by simp
  have "\<exists>f. remote_call statement ?s0 = (Inr v, s\<lparr>db := d, faults := f\<rparr>)"
  proof (cases "dropWhile (\<lambda>f. f \<noteq> None) (faults s)")
    case Nil
    with dw have f0: "faults ?s0 = []" by simp
    have "remote_call statement ?s0 = (Inr v, ?s0\<lparr>db := d\<rparr>)"
      unfolding remote_call_def f0 st0 by simp
    moreover have "?s0\<lparr>db := d\<rparr> = s\<lparr>db := d, faults := drop ?k (faults s)\<rparr>" by simp
    ultimately have "remote_call statement ?s0 = (Inr v, s\<lparr>db := d, faults := drop ?k (faults s)\<rparr>)"
      by simp
    then show ?thesis by (rule exI)
  next
    case (Cons x rest)
    then have "x = None" using hd_dropWhile [of "\<lambda>f. f \<noteq> None" "faults s"] by force
    with Cons dw have f0: "faults ?s0 = None # rest" by simp
    have "remote_call statement ?s0 = (Inr v, ?s0\<lparr>db := d, faults := rest\<rparr>)"
      unfolding remote_call_def f0 st0 by simp
    moreover have "?s0\<lparr>db := d, faults := rest\<rparr> = s\<lparr>db := d, faults := rest\<rparr>" by simp
    ultimately have "remote_call statement ?s0 = (Inr v, s\<lparr>db := d, faults := rest\<rparr>)"
      by simp
    then show ?thesis by (rule exI)
  qed
  then obtain f where
    rc: "remote_call statement (s\<lparr>faults := drop ?k (faults s)\<rparr>) = (Inr v, s\<lparr>db := d, faults := f\<rparr>)" ..
  from retry_loop_succeeds [OF ft rc, of 0 "int 3" 1000 True None "[]"] k3
  have "withRetry (remote_call statement) defaultRetryOptions s
          = (Inr v, map (\<lambda>i. 1000 * 2 ^ i) [0..<?k], s\<lparr>db := d, faults := f\<rparr>)"
    by (simp add: withRetry_def resolve_options_def defaultRetryOptions_def)
  then show ?thesis by blast
qed

subsection \<open>Coin ledger\<close>

lemma addError_frame:
  "db (addError e s) = db s" "faults (addError e s) = faults s" "balance (addError e s) = balance s"
  "unlockedEpisodes (addError e s) = unlockedEpisodes s" "userId (addError e s) = userId s"
  "watchlistIds (addError e s) = watchlistIds s"
  by (simp_all add: addError_def Let_def)


lemma update_balance_keeps: "\<forall>d e d'. update_balance u nc nb d = (Inl e, d') \<longrightarrow> d' = d"
  by (simp add: update_balance_def)

lemma updateBalance_effect:
  assumes "updateBalance nc nb s = (r, s')"
  shows "(r \<and> (\<exists>u. signed_in s = Some u \<and> db s' = snd (update_balance u nc nb (db s))) \<and>
            balance s' = map_option (\<lambda>b. b\<lparr>coins := nc, bonus_coins := nb, updated_at := clock s'\<rparr>) (balance s))
       \<or> (\<not> r \<and> db s' = db s \<and> balance s' = balance s)"
proof (cases "signed_in s")
  case None
  with assms show ?thesis by (simp add: updateBalance_def)
next
  case (Some u)
  obtain res waited s1 where
    run: "withRetry (remote_call (update_balance u nc nb)) defaultRetryOptions s = (res, waited, s1)"
    by (metis prod_cases3)
  from withRetry_remote_cases [OF update_balance_keeps run]
  consider (ok) v d f where "res = Inr v" "update_balance u nc nb (db s) = (Inr v, d)"
      "s1 = s\<lparr>db := d, faults := f\<rparr>"
    | (failed) e f where "res = Inl (Some e)" "s1 = s\<lparr>faults := f\<rparr>"
    by blast
  then show ?thesis
  proof cases
    case ok
    with assms Some run have "r" and s': "s' = (case balance s of None \<Rightarrow> s1
        | Some b \<Rightarrow> s1\<lparr>balance := Some (b\<lparr>coins := nc, bonus_coins := nb, updated_at := clock s1\<rparr>)\<rparr>)"
      by (auto simp: updateBalance_def)
    from s' ok have "db s' = d" "balance s' = map_option (\<lambda>b. b\<lparr>coins := nc, bonus_coins := nb, updated_at := clock s'\<rparr>) (balance s)"
      by (auto split: option.splits)
    with \<open>r\<close> Some ok(2) show ?thesis by simp
  next
    case failed
    with assms Some run have "\<not> r" "db s' = db s" "balance s' = balance s"
      by (auto simp: updateBalance_def addError_frame)
    then show ?thesis by simp
  qed
qed

lemma updateBalance_ok:
  assumes "signed_in s = Some u" "transport_ok s"
  shows "fst (updateBalance nc nb s)"
proof -
  have "update_balance u nc nb (db s) = (Inr (), snd (update_balance u nc nb (db s)))"
    by (simp add: update_balance_def)
  with withRetry_remote_ok [of s "update_balance u nc nb" "()" "snd (update_balance u nc nb (db s))"]
    assms show ?thesis
    by (auto simp: updateBalance_def)
qed

lemma spend_split_nonneg:
  assumes "0 \<le> a"  "0 \<le> bonus_coins b"
  shows "spend_split b a = (coins b - (a - min a (bonus_coins b)), bonus_coins b - min a (bonus_coins b))"
  using assms by (auto simp: spend_split_def Let_def min_def)

lemma spend_split_nonpos:
  "a \<le> 0 \<Longrightarrow> spend_split b a = (coins b, bonus_coins b)"
  by (simp add: spend_split_def)

lemma spendCoins_affordable:
  assumes "balance s = Some b" "a \<le> coins b + bonus_coins b"
    and "signed_in s = Some u" "transport_ok s" "spend_split b a = (nc, nb)"
  shows "fst (spendCoins a s)
       \<and> map_option coins (balance (snd (spendCoins a s))) = Some nc
       \<and> map_option bonus_coins (balance (snd (spendCoins a s))) = Some nb
       \<and> db (snd (spendCoins a s)) = snd (update_balance u nc nb (db s))"
proof -
  have sp: "spendCoins a s = updateBalance nc nb s"
    using assms by (simp add: spendCoins_def Let_def)
  obtain r s' where ub: "updateBalance nc nb s = (r, s')" by force
  from updateBalance_ok [OF assms(3,4), of nc nb] ub have r by simp
  with updateBalance_effect [OF ub] assms(1,3) have
    "db s' = snd (update_balance u nc nb (db s))"
    "balance s' = Some (b\<lparr>coins := nc, bonus_coins := nb, updated_at := clock s'\<rparr>)"
    by auto
  with sp ub \<open>r\<close> show ?thesis by simp
qed

text \<open>
  Claim C1, with the sign of the amount told apart. From a balance with
  \<open>coins = c \<ge> 0\<close> and \<open>bonus_coins = b \<ge> 0\<close> and for \<open>a \<le> c + b\<close>, when the user is signed
  in and one of the attempts of the update gets through, \<open>spendCoins a\<close> returns true and
  the database is the old one after one update statement that writes both fields. For
  \<open>0 \<le> a\<close> it leaves \<open>bonus_coins = b - min a b\<close> and \<open>coins = c - (a - min a b)\<close>, so the
  total drops by exactly \<open>a\<close>; for \<open>a < 0\<close> it leaves both fields as they were.
\<close>

theorem spendCoins_drains_bonus_first:
  assumes "balance s = Some b" "0 \<le> coins b" "0 \<le> bonus_coins b"
    and "a \<le> coins b + bonus_coins b"
    and "signed_in s = Some u" "transport_ok s"
  shows "(0 \<le> a \<longrightarrow>
            fst (spendCoins a s)
          \<and> map_option coins (balance (snd (spendCoins a s))) = Some (coins b - (a - min a (bonus_coins b)))
          \<and> map_option bonus_coins (balance (snd (spendCoins a s))) = Some (bonus_coins b - min a (bonus_coins b))
          \<and> map_option (\<lambda>x. coins x + bonus_coins x) (balance (snd (spendCoins a s)))
               = Some (coins b + bonus_coins b - a)
          \<and> db (snd (spendCoins a s))
               = snd (update_balance u (coins b - (a - min a (bonus_coins b)))
                        (bonus_coins b - min a (bonus_coins b)) (db s)))
       \<and> (a < 0 \<longrightarrow>
            fst (spendCoins a s)
          \<and> map_option coins (balance (snd (spendCoins a s))) = Some (coins b)
          \<and> map_option bonus_coins (balance (snd (spendCoins a s))) = Some (bonus_coins b)
          \<and> db (snd (spendCoins a s)) = snd (update_balance u (coins b) (bonus_coins b) (db s)))"
proof (intro conjI impI)
  assume a: "0 \<le> a"
  note r = spendCoins_affordable [OF assms(1,4,5,6) spend_split_nonneg [OF a assms(3)]]
  from r show "fst (spendCoins a s)"
    "map_option coins (balance (snd (spendCoins a s))) = Some (coins b - (a - min a (bonus_coins b)))"
    "map_option bonus_coins (balance (snd (spendCoins a s))) = Some (bonus_coins b - min a (bonus_coins b))"
    "db (snd (spendCoins a s))
       = snd (update_balance u (coins b - (a - min a (bonus_coins b)))
                (bonus_coins b - min a (bonus_coins b)) (db s))"
    by simp_all
  from r show "map_option (\<lambda>x. coins x + bonus_coins x) (balance (snd (spendCoins a s)))
               = Some (coins b + bonus_coins b - a)"
    by auto
next
  assume "a < 0"
  then have "spend_split b a = (coins b, bonus_coins b)" by (simp add: spend_split_nonpos)
  note r = spendCoins_affordable [OF assms(1,4,5,6) this]
  from r show "fst (spendCoins a s)"
    "map_option coins (balance (snd (spendCoins a s))) = Some (coins b)"
    "map_option bonus_coins (balance (snd (spendCoins a s))) = Some (bonus_coins b)"
    "db (snd (spendCoins a s)) = snd (update_balance u (coins b) (bonus_coins b) (db s))"
    by simp_all
qed

theorem spendCoins_drains_bonus_first_witness:
  "fst (spendCoins 120 demo_app)
   \<and> map_option coins (balance (snd (spendCoins 120 demo_app))) = Some 30
   \<and> map_option bonus_coins (balance (snd (spendCoins 120 demo_app))) = Some 0
   \<and> map_option (\<lambda>r. (user_id r, coins r, bonus_coins r)) (find (\<lambda>r. user_id r = ''u1'')
        (user_balances (db (snd (spendCoins 120 demo_app))))) = Some (''u1'', 30, 0)
   \<and> map_option coins (balance (snd (spendCoins (- 5) demo_app))) = Some 100"
proof -
  have h: "balance demo_app = Some demo_balance" "0 \<le> coins demo_balance" "0 \<le> bonus_coins demo_balance"
    and le: "120 \<le> coins demo_balance + bonus_coins demo_balance"
      "- 5 \<le> coins demo_balance + bonus_coins demo_balance"
    and u: "signed_in demo_app = Some ''u1''" "transport_ok demo_app"
    by (simp_all add: demo_app_def demo_balance_def signed_in_def transport_ok_def)
  from spendCoins_drains_bonus_first [OF h le(1) u] spendCoins_drains_bonus_first [OF h le(2) u]
  show ?thesis
    by (simp add: demo_balance_def demo_app_def demo_db_def update_balance_def)
qed

text \<open>
  Claim C1 as stated also covers negative amounts (\<open>a \<le> c + b\<close> is all it asks). There
  the guards \<open>remaining > 0\<close> skip both deductions: from 100 coins and 50 bonus coins,
  \<open>spendCoins (-5)\<close> returns true and leaves 50 bonus coins, where the claim's formula
  \<open>b - min a b\<close> gives 55.
\<close>

theorem spendCoins_negative_amount_counterexample:
  "map_option (\<lambda>b. (coins b, bonus_coins b)) (balance demo_app) = Some (100, 50)
   \<and> (- 5 :: int) \<le> 100 + 50
   \<and> fst (spendCoins (- 5) demo_app)
   \<and> map_option bonus_coins (balance (snd (spendCoins (- 5) demo_app))) = Some 50
   \<and> map_option bonus_coins (balance (snd (spendCoins (- 5) demo_app))) \<noteq> Some (50 - min (- 5) 50)"
proof -
  have h: "balance demo_app = Some demo_balance" "- 5 \<le> coins demo_balance + bonus_coins demo_balance"
    "signed_in demo_app = Some ''u1''" "transport_ok demo_app"
    "spend_split demo_balance (- 5) = (100, 50)"
    by (simp_all add: demo_app_def demo_balance_def signed_in_def transport_ok_def spend_split_def)
  note r = spendCoins_affordable [OF h]
  have c1: "map_option (\<lambda>b. (coins b, bonus_coins b)) (balance demo_app) = Some (100, 50)"
    by (simp add: demo_app_def demo_balance_def)
  have c2: "(- 5 :: int) \<le> 100 + 50" by simp
  have c3: "fst (spendCoins (- 5) demo_app)" using r by simp
  have c4: "map_option bonus_coins (balance (snd (spendCoins (- 5) demo_app))) = Some 50"
    using r by simp
  have c5: "map_option bonus_coins (balance (snd (spendCoins (- 5) demo_app))) \<noteq> Some (50 - min (- 5) 50)"
    unfolding c4 by simp
  from c1 c2 c3 c4 c5 show ?thesis by (intro conjI)
qed

text \<open>
  Claim C2. When the amount exceeds \<open>coins + bonus_coins\<close>, \<open>spendCoins\<close> returns false,
  the local balance and the database are unchanged, no remote statement is sent (the
  fault script is untouched), and exactly one notification is appended: the
  insufficient-coins message, of type \<open>warning\<close>.
\<close>

theorem spendCoins_insufficient_funds:
  assumes "balance s = Some b" "coins b + bonus_coins b < a"
  shows "fst (spendCoins a s) = False
       \<and> balance (snd (spendCoins a s)) = balance s
       \<and> db (snd (spendCoins a s)) = db s
       \<and> faults (snd (spendCoins a s)) = faults s
       \<and> errors (snd (spendCoins a s)) = errors s @
            [\<lparr>message = ''Insufficient coins. Please purchase more coins to continue.'',
              type = warning, duration = Some 5000, retryAction = None, retryLabel = None,
              msg_id = idgen s (idctr s)\<rparr>]"
  using assms
  by (simp add: spendCoins_def Let_def addError_def createErrorMessage_def
        ErrorMessageInput.extend_def ErrorMessage.fields_def)

theorem spendCoins_insufficient_funds_witness:
  "fst (spendCoins 1000 demo_app) = False
   \<and> balance (snd (spendCoins 1000 demo_app)) = Some demo_balance
   \<and> db (snd (spendCoins 1000 demo_app)) = demo_db
   \<and> map type (errors (snd (spendCoins 1000 demo_app))) = [warning]"
proof -
  have h: "balance demo_app = Some demo_balance" "coins demo_balance + bonus_coins demo_balance < 1000"
    by (simp_all add: demo_app_def demo_balance_def)
  from spendCoins_insufficient_funds [OF h] show ?thesis
    by (simp add: demo_app_def)
qed

lemma ledger_invariant_updateBalance:
  assumes "ledger_invariant s" "0 \<le> nc" "0 \<le> nb"
  shows "ledger_invariant (snd (updateBalance nc nb s))"
proof -
  obtain r s' where ub: "updateBalance nc nb s = (r, s')" by force
  from updateBalance_effect [OF ub] show ?thesis
  proof (elim disjE conjE exE)
    fix u
    assume "db s' = snd (update_balance u nc nb (db s))"
      "balance s' = map_option (\<lambda>b. b\<lparr>coins := nc, bonus_coins := nb, updated_at := clock s'\<rparr>) (balance s)"
    with assms ub show ?thesis
      by (auto simp: ledger_invariant_def balance_ok_def update_balance_def list_all_iff
               split: option.splits)
  next
    assume "db s' = db s" "balance s' = balance s"
    with assms ub show ?thesis by (simp add: ledger_invariant_def)
  qed
qed

text \<open>
  Claim C5. \<open>spendCoins a\<close> with \<open>a \<ge> 0\<close> and \<open>addCoins c b\<close> with \<open>c \<ge> 0\<close> and \<open>b \<ge> 0\<close>
  keep both fields non-negative, in the local balance and in every persisted row,
  whether the update succeeds or fails.
\<close>

theorem ledger_invariant_preserved:
  assumes "ledger_invariant s"
  shows "(0 \<le> a \<longrightarrow> ledger_invariant (snd (spendCoins a s)))
       \<and> (0 \<le> c \<and> 0 \<le> bn \<longrightarrow> ledger_invariant (snd (addCoins c bn s)))"
proof (intro conjI impI)
  assume a: "0 \<le> a"
  show "ledger_invariant (snd (spendCoins a s))"
  proof (cases "balance s")
    case None
    with assms show ?thesis by (simp add: spendCoins_def)
  next
    case (Some b)
    then have ok: "0 \<le> coins b" "0 \<le> bonus_coins b"
      using assms by (simp_all add: ledger_invariant_def balance_ok_def)
    show ?thesis
    proof (cases "coins b + bonus_coins b < a")
      case True
      with Some assms show ?thesis
        by (simp add: spendCoins_def Let_def ledger_invariant_def addError_frame)
    next
      case False
      with Some a ok have "spendCoins a s =
          updateBalance (coins b - (a - min a (bonus_coins b))) (bonus_coins b - min a (bonus_coins b)) s"
        by (simp add: spendCoins_def Let_def spend_split_nonneg)
      moreover have "0 \<le> coins b - (a - min a (bonus_coins b))" "0 \<le> bonus_coins b - min a (bonus_coins b)"
        using False a ok by (simp_all add: min_def)
      ultimately show ?thesis using ledger_invariant_updateBalance [OF assms] by simp
    qed
  qed
next
  assume cb: "0 \<le> c \<and> 0 \<le> bn"
  show "ledger_invariant (snd (addCoins c bn s))"
  proof (cases "balance s")
    case None
    with assms show ?thesis by (simp add: addCoins_def)
  next
    case (Some b)
    then have "0 \<le> coins b + c" "0 \<le> bonus_coins b + bn"
      using assms cb by (simp_all add: ledger_invariant_def balance_ok_def)
    with Some show ?thesis using ledger_invariant_updateBalance [OF assms] by (simp add: addCoins_def)
  qed
qed

theorem ledger_invariant_preserved_witness:
  "ledger_invariant demo_app
   \<and> ledger_invariant (snd (spendCoins 120 demo_app))
   \<and> ledger_invariant (snd (addCoins 10 5 demo_app))"
proof -
  have h: "ledger_invariant demo_app"
    by (simp add: ledger_invariant_def balance_ok_def demo_app_def demo_db_def demo_balance_def)
  from ledger_invariant_preserved [OF h, of 120 10 5] h show ?thesis by simp
qed

text \<open>
  Claim C9. With no balance loaded, \<open>spendCoins\<close> and \<open>addCoins\<close> return false and leave
  the whole state as it was (so no remote statement is sent and the database is not
  touched), \<open>canAfford\<close> is false for every cost and \<open>totalCoins\<close> is 0, whatever the
  persisted row holds.
\<close>

theorem no_balance_degrades_safely:
  assumes "balance s = None"
  shows "spendCoins a s = (False, s) \<and> addCoins c bn s = (False, s)
       \<and> canAfford cost s = False \<and> totalCoins s = 0"
  using assms by (simp add: spendCoins_def addCoins_def canAfford_def totalCoins_def)

theorem no_balance_degrades_safely_witness:
  "user_balances (db (demo_app\<lparr>balance := None\<rparr>)) = [demo_balance]
   \<and> spendCoins 10 (demo_app\<lparr>balance := None\<rparr>) = (False, demo_app\<lparr>balance := None\<rparr>)
   \<and> addCoins 10 5 (demo_app\<lparr>balance := None\<rparr>) = (False, demo_app\<lparr>balance := None\<rparr>)
   \<and> canAfford 0 (demo_app\<lparr>balance := None\<rparr>) = False
   \<and> totalCoins (demo_app\<lparr>balance := None\<rparr>) = 0"
proof -
  have h: "balance (demo_app\<lparr>balance := None\<rparr>) = None" by simp
  from no_balance_degrades_safely [OF h] show ?thesis
    by (simp add: demo_app_def demo_db_def)
qed

subsection \<open>Episode unlock gate\<close>

















subsection \<open>Watchlist\<close>

lemma select_watchlist_keeps: "\<forall>d e d'. select_watchlist u d = (Inl e, d') \<longrightarrow> d' = d"
  by (simp add: select_watchlist_def)

lemma movie_embed_item [simp]:
  "movie (embed_item d r) = find (\<lambda>m. movie_id m = wl_movie_id r) (movies d)"
  by (simp add: embed_item_def WatchlistRow.extend_def WatchlistItem.fields_def)

lemma ids_of_item:
  "movie_id ` set (to_movie_with_progress (embed_item d r)) =
     (if wl_movie_id r \<in> movie_id ` set (movies d) then {wl_movie_id r} else {})"
proof (cases "find (\<lambda>m. movie_id m = wl_movie_id r) (movies d)")
  case None
  then have "wl_movie_id r \<notin> movie_id ` set (movies d)"
    by (auto simp: find_None_iff)
  with None show ?thesis by (simp add: to_movie_with_progress_def)
next
  case (Some m)
  then have eq: "movie_id m = wl_movie_id r" and "m \<in> set (movies d)"
    by (auto simp: find_Some_iff)
  then have "movie_id m \<in> movie_id ` set (movies d)" by (intro imageI)
  then have "wl_movie_id r \<in> movie_id ` set (movies d)" by (simp only: eq)
  with Some eq show ?thesis
    by (simp add: to_movie_with_progress_def Movie.extend_def)
qed

lemma ids_of_items:
  "movie_id ` set (concat (map to_movie_with_progress (map (embed_item d) rows))) =
     {i \<in> wl_movie_id ` set rows. i \<in> movie_id ` set (movies d)}"
proof (induction rows)
  case Nil
  show ?case by simp
next
  case (Cons r rows)
  have "movie_id ` set (concat (map to_movie_with_progress (map (embed_item d) (r # rows)))) =
          movie_id ` set (to_movie_with_progress (embed_item d r)) \<union>
          movie_id ` set (concat (map to_movie_with_progress (map (embed_item d) rows)))"
    by (simp add: image_Un)
  also have "\<dots> = (if wl_movie_id r \<in> movie_id ` set (movies d) then {wl_movie_id r} else {}) \<union>
          {i \<in> wl_movie_id ` set rows. i \<in> movie_id ` set (movies d)}"
    by (simp only: ids_of_item Cons.IH)
  also have "\<dots> = {i \<in> wl_movie_id ` set (r # rows). i \<in> movie_id ` set (movies d)}"
    by (cases "wl_movie_id r \<in> movie_id ` set (movies d)") (simp_all, blast+)
  finally show ?case .
qed

lemma fetchWatchlist_ids:
  assumes u: "signed_in s = Some u" and ok: "fst (fetchWatchlist s)"
  shows "db (snd (fetchWatchlist s)) = db s \<and>
         watchlistIds (snd (fetchWatchlist s)) =
           {i \<in> wl_movie_id ` {r \<in> set (user_watchlist (db s)). wl_user_id r = u}.
              i \<in> movie_id ` set (movies (db s))}"
proof -
  let ?s0 = "s\<lparr>wl_loading := True, wl_error := None\<rparr>"
  obtain res waited s1 where
    wr: "withRetry (remote_call (select_watchlist u)) defaultRetryOptions ?s0 = (res, waited, s1)"
    by (metis prod_cases3)
  from withRetry_remote_cases [OF select_watchlist_keeps wr]
  consider (ok) v d f where "res = Inr v" "select_watchlist u (db ?s0) = (Inr v, d)"
      "s1 = ?s0\<lparr>db := d, faults := f\<rparr>"
    | (failed) e where "res = Inl (Some e)"
    by blast
  then show ?thesis
  proof cases
    case ok
    from ok(2) have d: "d = db s"
      and v: "v = map (embed_item (db s))
                 (rev (sort_key wl_created_at (filter (\<lambda>r. wl_user_id r = u) (user_watchlist (db s)))))"
      by (auto simp: select_watchlist_def)
    let ?rows = "rev (sort_key wl_created_at (filter (\<lambda>r. wl_user_id r = u) (user_watchlist (db s))))"
    from u wr ok(1) have sn:
      "snd (fetchWatchlist s) = s1\<lparr>watchlist := concat (map to_movie_with_progress v),
          watchlistIds := set (map movie_id (concat (map to_movie_with_progress v))), wl_loading := False\<rparr>"
      by (simp add: fetchWatchlist_def Let_def)
    have "watchlistIds (snd (fetchWatchlist s)) = set (map movie_id (concat (map to_movie_with_progress v)))"
      unfolding sn by simp
    also have "\<dots> = movie_id ` set (concat (map to_movie_with_progress (map (embed_item (db s)) ?rows)))"
      unfolding v by (simp only: set_map)
    also have "\<dots> = {i \<in> wl_movie_id ` set ?rows. i \<in> movie_id ` set (movies (db s))}"
      by (rule ids_of_items)
    also have "\<dots> = {i \<in> wl_movie_id ` {r \<in> set (user_watchlist (db s)). wl_user_id r = u}.
              i \<in> movie_id ` set (movies (db s))}"
      by simp
    finally have ids: "watchlistIds (snd (fetchWatchlist s)) =
        {i \<in> wl_movie_id ` {r \<in> set (user_watchlist (db s)). wl_user_id r = u}.
              i \<in> movie_id ` set (movies (db s))}" .
    have "db (snd (fetchWatchlist s)) = db s"
      unfolding sn using ok(3) d by simp
    with ids show ?thesis by simp
  next
    case failed
    with u wr ok show ?thesis by (simp add: fetchWatchlist_def)
  qed
qed

text \<open>
  Claim C6. After a \<open>fetchWatchlist\<close> whose try block ran to its end, for the signed-in
  user \<open>u\<close>, \<open>isInWatchlist i\<close> holds exactly when \<open>user_watchlist\<close> has a row \<open>(u, i)\<close>.
  The hypothesis on the database is the foreign key \<open>user_watchlist_movie_id_fkey\<close> (every
  row's movie exists, and \<open>movies\<close> is readable by everyone), under which the filter on
  \<open>item.movie\<close> drops nothing; \<open>fetchWatchlist_ids\<close> above is the statement without it.
\<close>

theorem isInWatchlist_reflects_rows:
  assumes "signed_in s = Some u" and "fst (fetchWatchlist s)"
    and "\<forall>r \<in> set (user_watchlist (db s)). wl_movie_id r \<in> movie_id ` set (movies (db s))"
  shows "db (snd (fetchWatchlist s)) = db s
       \<and> (isInWatchlist i (snd (fetchWatchlist s)) \<longleftrightarrow>
            (\<exists>r \<in> set (user_watchlist (db s)). wl_user_id r = u \<and> wl_movie_id r = i))"
  using fetchWatchlist_ids [OF assms(1,2)] assms(3)
  by (auto simp: isInWatchlist_def)

lemma fetchWatchlist_ok:
  assumes "signed_in s = Some u" "transport_ok s"
  shows "fst (fetchWatchlist s)"
proof -
  let ?s0 = "s\<lparr>wl_loading := True, wl_error := None\<rparr>"
  have tr: "transport_ok ?s0" using assms(2) by (simp add: transport_ok_def)
  have sel: "select_watchlist u (db ?s0) =
      (Inr (map (embed_item (db s))
             (rev (sort_key wl_created_at (filter (\<lambda>r. wl_user_id r = u) (user_watchlist (db s)))))), db s)"
    by (simp add: select_watchlist_def)
  from withRetry_remote_ok [of ?s0 "select_watchlist u", OF tr sel] assms(1) show ?thesis
    by (auto simp: fetchWatchlist_def Let_def)
qed

theorem isInWatchlist_reflects_rows_witness:
  "fst (fetchWatchlist demo_app)
   \<and> isInWatchlist 1 (snd (fetchWatchlist demo_app)) = True
   \<and> isInWatchlist 2 (snd (fetchWatchlist demo_app)) = False"
proof -
  have u: "signed_in demo_app = Some ''u1''" and t: "transport_ok demo_app"
    by (simp_all add: demo_app_def signed_in_def transport_ok_def)
  have ok: "fst (fetchWatchlist demo_app)" by (rule fetchWatchlist_ok [OF u t])
  have fk: "\<forall>r \<in> set (user_watchlist (db demo_app)). wl_movie_id r \<in> movie_id ` set (movies (db demo_app))"
    by (simp add: demo_app_def demo_db_def demo_movie_def)
  from isInWatchlist_reflects_rows [OF u ok fk, of 1] isInWatchlist_reflects_rows [OF u ok fk, of 2] ok
  show ?thesis by (simp add: demo_app_def demo_db_def)
qed

subsection \<open>Watchlist categories\<close>

lemma select_categories_keeps: "\<forall>d e d'. select_categories u d = (Inl e, d') \<longrightarrow> d' = d"
  by (simp add: select_categories_def)

lemma delete_category_keeps: "\<forall>d e d'. delete_category c u d = (Inl e, d') \<longrightarrow> d' = d"
  by (simp add: delete_category_def Let_def)

lemma db_fetchCategories: "db (fetchCategories s) = db s"
proof (cases "signed_in s")
  case None
  then show ?thesis by (simp add: fetchCategories_def)
next
  case (Some u)
  let ?s0 = "s\<lparr>cat_loading := True, cat_error := None\<rparr>"
  obtain res waited s1 where
    wr: "withRetry (remote_call (select_categories u)) defaultRetryOptions ?s0 = (res, waited, s1)"
    by (metis prod_cases3)
  from withRetry_remote_cases [OF select_categories_keeps wr]
  consider (ok) v d f where "res = Inr v" "select_categories u (db ?s0) = (Inr v, d)"
      "s1 = ?s0\<lparr>db := d, faults := f\<rparr>"
    | (failed) e f where "res = Inl (Some e)" "s1 = ?s0\<lparr>faults := f\<rparr>"
    by blast
  then show ?thesis
  proof cases
    case ok
    from ok(2) have "d = db s" by (auto simp: select_categories_def)
    with Some wr ok show ?thesis by (simp add: fetchCategories_def)
  next
    case failed
    with Some wr show ?thesis by (simp add: fetchCategories_def addError_frame)
  qed
qed

lemma delete_category_referencing:
  "wl_category_id r \<in> Some ` cat_id ` set (filter (\<lambda>k. cat_id k = c \<and> cat_user_id k = u) cats)
     \<longleftrightarrow> wl_category_id r = Some c \<and> (\<exists>k \<in> set cats. cat_id k = c \<and> cat_user_id k = u)"
  by auto

text \<open>
  Claim C7. After a \<open>deleteCategory c\<close> that returns true, the category table has lost
  the rows with id \<open>c\<close> of user \<open>u\<close> and nothing else; the watchlist table has the same
  rows in the same order, the rows that referenced the deleted category with
  \<open>category_id\<close> null and every other field as before, all other rows untouched; the
  other tables are unchanged.
\<close>

theorem deleteCategory_sets_null:
  assumes "signed_in s = Some u" and "fst (deleteCategory c s)"
  shows "user_watchlist_categories (db (snd (deleteCategory c s)))
           = filter (\<lambda>k. \<not> (cat_id k = c \<and> cat_user_id k = u)) (user_watchlist_categories (db s))
       \<and> user_watchlist (db (snd (deleteCategory c s)))
           = map (\<lambda>r. if wl_category_id r = Some c
                          \<and> (\<exists>k \<in> set (user_watchlist_categories (db s)). cat_id k = c \<and> cat_user_id k = u)
                       then r\<lparr>wl_category_id := None\<rparr> else r)
               (user_watchlist (db s))
       \<and> length (user_watchlist (db (snd (deleteCategory c s)))) = length (user_watchlist (db s))
       \<and> movies (db (snd (deleteCategory c s))) = movies (db s)
       \<and> user_balances (db (snd (deleteCategory c s))) = user_balances (db s)
       \<and> user_episode_unlocks (db (snd (deleteCategory c s))) = user_episode_unlocks (db s)"
proof -
  obtain res waited s1 where
    wr: "withRetry (remote_call (delete_category c u)) defaultRetryOptions s = (res, waited, s1)"
    by (metis prod_cases3)
  from withRetry_remote_cases [OF delete_category_keeps wr]
  consider (ok) v d f where "res = Inr v" "delete_category c u (db s) = (Inr v, d)"
      "s1 = s\<lparr>db := d, faults := f\<rparr>"
    | (failed) e where "res = Inl (Some e)"
    by blast
  then show ?thesis
  proof cases
    case ok
    from assms(1) wr ok(1) have
      "snd (deleteCategory c s) =
         addError (createErrorMessage ''Category deleted successfully.'' (Some info) None None)
           (fetchCategories s1)"
      by (simp add: deleteCategory_def)
    then have "db (snd (deleteCategory c s)) = d"
      using ok(3) by (simp add: addError_frame db_fetchCategories)
    moreover from ok(2) have "d = snd (delete_category c u (db s))" by simp
    ultimately show ?thesis
      by (simp add: delete_category_def Let_def delete_category_referencing del: set_filter)
  next
    case failed
    with assms wr show ?thesis by (simp add: deleteCategory_def)
  qed
qed

lemma deleteCategory_ok:
  assumes "signed_in s = Some u" "transport_ok s"
  shows "fst (deleteCategory c s)"
  using withRetry_remote_ok [of s "delete_category c u" "()" "snd (delete_category c u (db s))"] assms
  by (auto simp: deleteCategory_def delete_category_def Let_def)

theorem deleteCategory_sets_null_witness:
  "fst (deleteCategory ''c1'' demo_app)
   \<and> user_watchlist_categories (db (snd (deleteCategory ''c1'' demo_app))) = []
   \<and> user_watchlist (db (snd (deleteCategory ''c1'' demo_app)))
       = [\<lparr>wl_id = ''w1'', wl_user_id = ''u1'', wl_movie_id = 1, wl_category_id = None,
           wl_created_at = ''2025-08-03T00:00:00.000Z''\<rparr>,
          \<lparr>wl_id = ''w2'', wl_user_id = ''u2'', wl_movie_id = 2, wl_category_id = None,
           wl_created_at = ''2025-08-04T00:00:00.000Z''\<rparr>]"
proof -
  have u: "signed_in demo_app = Some ''u1''" and t: "transport_ok demo_app"
    by (simp_all add: demo_app_def signed_in_def transport_ok_def)
  have ok: "fst (deleteCategory ''c1'' demo_app)" by (rule deleteCategory_ok [OF u t])
  from deleteCategory_sets_null [OF u ok] ok show ?thesis
    by (simp add: demo_app_def demo_db_def)
qed

subsection \<open>Error notification bus\<close>

lemma createErrorMessage_duration:
  "duration (createErrorMessage msg ty ra rl) = Some (if ty = Some success then 3000 else 5000)"
  by (cases ty) (simp_all add: createErrorMessage_def)

text \<open>
  The guard \<open>newError.duration > 0\<close>: an entry handed to \<open>addError\<close> with a negative
  duration gets no timer. No call site does so: each builds its entry with
  \<open>createErrorMessage\<close>.
\<close>

lemma addError_non_positive_duration:
  "duration e = Some n \<Longrightarrow> n < 0 \<Longrightarrow> timers (addError e s) = timers s"
  by (simp add: addError_def Let_def)

text \<open>
  Claim C8. \<open>createErrorMessage\<close> sets the duration to 3000 for \<open>success\<close> and to 5000
  for every other type (also for the default type). \<open>addError\<close> of such a message appends
  one entry, with a newly drawn id \<open>i\<close> and that duration, and schedules one timer, with
  that duration as delay, whose callback removes the entries with id \<open>i\<close>. When the timer
  fires it removes the entries with id \<open>i\<close> and no other; when \<open>i\<close> was not in use, this is
  exactly the entry that was appended.
\<close>

theorem notifications_self_expire:
  fixes s :: app
  defines "i \<equiv> idgen s (idctr s)"
  shows "duration (createErrorMessage msg ty ra rl) = Some (if ty = Some success then 3000 else 5000)
       \<and> errors (addError (createErrorMessage msg ty ra rl) s) = errors s @
            [\<lparr>message = msg, type = (case ty of None \<Rightarrow> error | Some t \<Rightarrow> t),
              duration = Some (if ty = Some success then 3000 else 5000),
              retryAction = ra, retryLabel = rl, msg_id = i\<rparr>]
       \<and> timers (addError (createErrorMessage msg ty ra rl) s) = timers s @
            [(if ty = Some success then 3000 else 5000, i)]
       \<and> errors (fire_timer (length (timers s)) (addError (createErrorMessage msg ty ra rl) s))
            = filter (\<lambda>e. msg_id e \<noteq> i) (errors s)
       \<and> (i \<notin> msg_id ` set (errors s) \<longrightarrow>
            errors (fire_timer (length (timers s)) (addError (createErrorMessage msg ty ra rl) s)) = errors s)
       \<and> timers (fire_timer (length (timers s)) (addError (createErrorMessage msg ty ra rl) s)) = timers s"
proof -
  let ?d = "if ty = Some success then 3000 else 5000 :: int"
  let ?s' = "addError (createErrorMessage msg ty ra rl) s"
  have d: "duration (createErrorMessage msg ty ra rl) = Some ?d"
    by (rule createErrorMessage_duration)
  have pos: "0 < ?d" by simp
  have e: "errors ?s' = errors s @
            [\<lparr>message = msg, type = (case ty of None \<Rightarrow> error | Some t \<Rightarrow> t),
              duration = Some ?d, retryAction = ra, retryLabel = rl, msg_id = i\<rparr>]"
    by (cases ty) (simp_all add: addError_def createErrorMessage_def Let_def i_def
          ErrorMessageInput.extend_def ErrorMessage.fields_def)
  have t: "timers ?s' = timers s @ [(?d, i)]"
    by (cases ty) (simp_all add: addError_def createErrorMessage_def Let_def i_def)
  have f: "errors (fire_timer (length (timers s)) ?s') = filter (\<lambda>e. msg_id e \<noteq> i) (errors s)"
    by (simp add: fire_timer_def removeError_def t e)
  have f': "i \<notin> msg_id ` set (errors s) \<longrightarrow> errors (fire_timer (length (timers s)) ?s') = errors s"
    unfolding f by (auto simp: filter_id_conv)
  have ft: "timers (fire_timer (length (timers s)) ?s') = timers s"
    by (simp add: fire_timer_def removeError_def t)
  from d e t f f' ft show ?thesis by blast
qed

theorem notifications_self_expire_witness:
  "errors (addError (createErrorMessage ''Saved'' (Some success) None None) demo_app)
     = [\<lparr>message = ''Saved'', type = success, duration = Some 3000, retryAction = None,
          retryLabel = None, msg_id = ''0''\<rparr>]
   \<and> timers (addError (createErrorMessage ''Saved'' (Some success) None None) demo_app) = [(3000, ''0'')]
   \<and> timers (addError (createErrorMessage ''Oops'' None None None) demo_app) = [(5000, ''0'')]
   \<and> errors (fire_timer 0 (addError (createErrorMessage ''Saved'' (Some success) None None) demo_app)) = []"
proof -
  have "show_nat 0 = ''0''" by code_simp
  then have i: "idgen demo_app (idctr demo_app) = ''0''"
    by (simp add: demo_app_def)
  have fresh: "idgen demo_app (idctr demo_app) \<notin> msg_id ` set (errors demo_app)"
    and e0: "errors demo_app = []" and t0: "timers demo_app = []"
    by (simp_all add: demo_app_def)
  note a = notifications_self_expire [of "''Saved''" "Some success" None None demo_app]
  note b = notifications_self_expire [of "''Oops''" None None None demo_app]
  from a b fresh show ?thesis
    by (simp add: i e0 t0)
qed

subsection \<open>getErrorMessage\<close>



end
